theory Spec2Isabelle
  imports Complex_Main "HOL-Library.Word" "HOL-Library.Log_Nat" "HOL-Library.Multiset"
begin

unbundle bit_operations_syntax

section \<open>Timeline legend colours\<close>

text \<open>
  A JavaScript string is a sequence of UTF-16 code units; \<open>userId.split('')\<close> yields
  one one-unit string per code unit and \<open>b.charCodeAt(0)\<close> reads it as a number
  between 0 and 65535.
\<close>

type_synonym js_string = "16 word list"

definition colors :: "string list" where
  "colors =
     [''bg-blue-500'', ''bg-green-500'', ''bg-purple-500'', ''bg-pink-500'',
      ''bg-indigo-500'', ''bg-yellow-500'', ''bg-red-500'', ''bg-teal-500'',
      ''bg-orange-500'', ''bg-cyan-500'']"

text \<open>
  The bitwise operators of JavaScript work on the 32-bit two's complement reading of
  their operands (\<open>ToInt32\<close>); \<open>-\<close> and \<open>+\<close> on numbers of this size are exact.
\<close>

definition ToInt32 :: "int \<Rightarrow> int" where
  "ToInt32 x = sint (word_of_int x :: 32 word)"

definition shift_left :: "int \<Rightarrow> nat \<Rightarrow> int" where
  "shift_left a n = sint (push_bit n (word_of_int a :: 32 word))"

definition bit_and :: "int \<Rightarrow> int \<Rightarrow> int" where
  "bit_and a b = sint ((word_of_int a :: 32 word) AND word_of_int b)"

definition charCodeAt0 :: "16 word \<Rightarrow> int" where
  "charCodeAt0 b = uint b"

text \<open>The body of the reducer: \<open>a = (a << 5) - a + b.charCodeAt(0); return a & a\<close>.\<close>

definition hash_step :: "int \<Rightarrow> 16 word \<Rightarrow> int" where
  "hash_step a b = (let a' = shift_left a 5 - a + charCodeAt0 b in bit_and a' a')"

definition hash :: "js_string \<Rightarrow> int" where
  "hash userId = foldl hash_step 0 userId"

definition Math_abs :: "int \<Rightarrow> int" where
  "Math_abs x = \<bar>x\<bar>"

definition getUserColor_index :: "js_string \<Rightarrow> nat" where
  "getUserColor_index userId = nat (Math_abs (hash userId) mod int (length colors))"

text \<open>Indexing an array out of range gives \<open>undefined\<close>, here \<open>None\<close>.\<close>

definition array_get :: "'a list \<Rightarrow> nat \<Rightarrow> 'a option" where
  "array_get xs i = (if i < length xs then Some (xs ! i) else None)"

definition getUserColor :: "js_string \<Rightarrow> string option" where
  "getUserColor userId = array_get colors (getUserColor_index userId)"

section \<open>JavaScript numbers\<close>

text \<open>
  A finite JavaScript number is a binary64 value, hence a rational. The arithmetic
  operators compute the exact result and round it to the nearest binary64 value, ties
  to the one with an even significand. \<open>binade x\<close> is the exponent \<open>e\<close> with
  \<open>2^e \<le> x < 2^(e+1)\<close> of a positive \<open>x\<close>; a value in that binade is a multiple of
  \<open>2^(e-52)\<close>. Results here stay far inside the normal range (between \<open>2^-1022\<close>
  and \<open>2^1024\<close>), so neither subnormal numbers nor infinities are modelled.
\<close>

type_synonym number = rat

definition round_half_even :: "rat \<Rightarrow> int" where
  "round_half_even y =
     (let f = \<lfloor>y\<rfloor>; d = y - of_int f
      in if d < 1 / 2 then f
         else if 1 / 2 < d then f + 1
         else if even f then f else f + 1)"

definition binade :: "rat \<Rightarrow> int" where
  "binade x = (if 1 \<le> x then bitlen \<lfloor>x\<rfloor> - 1 else - bitlen (\<lceil>1 / x\<rceil> - 1))"

definition to_double :: "rat \<Rightarrow> number" where
  "to_double x =
     (if x = 0 then 0
      else let u = power_int 2 (binade \<bar>x\<bar> - 52)
           in sgn x * of_int (round_half_even (\<bar>x\<bar> / u)) * u)"

text \<open>\<open>a / b\<close> for a non-zero divisor, and \<open>a * b\<close>.\<close>

definition js_div :: "number \<Rightarrow> number \<Rightarrow> number" where
  "js_div a b = to_double (a / b)"

definition js_mul :: "number \<Rightarrow> number \<Rightarrow> number" where
  "js_mul a b = to_double (a * b)"

text \<open>\<open>Math.round\<close>: the nearest integer, a tie going up.\<close>

definition Math_round :: "number \<Rightarrow> int" where
  "Math_round x = \<lfloor>x + 1 / 2\<rfloor>"

section \<open>Tasks\<close>

text \<open>The task document as the components read it (\<open>ITask\<close>). Instants are
  milliseconds since the epoch.\<close>

datatype status = Backlog | In_progress | Done

datatype priority = Low | Med | High

record checklist_item =
  label :: string
  checked :: bool

record task =
  task_id :: nat
  userId :: string
  title :: string
  description :: "string option"
  status :: status
  priority :: priority
  order :: int
  tags :: "string list"
  startAt :: "int option"
  dueAt :: "int option"
  items :: "checklist_item list"
  percent :: number

definition status_name :: "status \<Rightarrow> string" where
  "status_name s = (case s of Backlog \<Rightarrow> ''backlog'' | In_progress \<Rightarrow> ''in_progress''
     | Done \<Rightarrow> ''done'')"

definition priority_name :: "priority \<Rightarrow> string" where
  "priority_name p = (case p of Low \<Rightarrow> ''low'' | Med \<Rightarrow> ''med'' | High \<Rightarrow> ''high'')"

definition status_of_string :: "string \<Rightarrow> status option" where
  "status_of_string s =
     (if s = ''backlog'' then Some Backlog
      else if s = ''in_progress'' then Some In_progress
      else if s = ''done'' then Some Done else None)"

definition priority_of_string :: "string \<Rightarrow> priority option" where
  "priority_of_string s =
     (if s = ''low'' then Some Low
      else if s = ''med'' then Some Med
      else if s = ''high'' then Some High else None)"

section \<open>Task dialog: progress\<close>

text \<open>
  \<open>checklistProgress\<close> of the dialog. \<open>watchedPercent\<close> is the value of the form's
  number field: a number, \<open>undefined\<close> while the field is not set, or \<open>NaN\<close> when the
  field is empty. \<open>watchedPercent || 0\<close> replaces the last two by 0.
\<close>

datatype form_number = Undefined | NaN | Num number

definition checked_count :: "checklist_item list \<Rightarrow> nat" where
  "checked_count checklistItems = length (filter checked checklistItems)"

definition or_zero :: "form_number \<Rightarrow> number" where
  "or_zero v = (case v of Undefined \<Rightarrow> 0 | NaN \<Rightarrow> 0 | Num x \<Rightarrow> x)"

definition checklistProgress :: "checklist_item list \<Rightarrow> form_number \<Rightarrow> number" where
  "checklistProgress checklistItems watchedPercent =
     (if length checklistItems > 0
      then of_int (Math_round
             (js_mul (js_div (of_nat (checked_count checklistItems))
                             (of_nat (length checklistItems))) 100))
      else or_zero watchedPercent)"

section \<open>Task dialog: the form's schema\<close>

text \<open>
  The dialog validates the form with its own \<open>taskSchema\<close> before it submits; the form
  is not sent when the schema reports an issue. Status and priority come from select
  boxes and are always one of the listed values. The optional percent may be
  \<open>undefined\<close>; \<open>z.number()\<close> rejects \<open>NaN\<close>.
\<close>

record zod_issue =
  path :: "string list"
  message :: string

record TaskFormData =
  fd_title :: string
  fd_description :: "string option"
  fd_status :: status
  fd_priority :: priority
  fd_tags :: "string list"
  fd_startAt :: "string option"
  fd_dueAt :: "string option"
  fd_percent :: form_number

definition title_issues :: "string \<Rightarrow> zod_issue list" where
  "title_issues s =
     (if length s < 3
      then [\<lparr>path = [''title''], message = ''Title must be at least 3 characters''\<rparr>]
      else if 120 < length s
      then [\<lparr>path = [''title''], message = ''Title must be less than 120 characters''\<rparr>]
      else [])"

definition description_issues :: "string option \<Rightarrow> zod_issue list" where
  "description_issues v =
     (case v of None \<Rightarrow> []
      | Some s \<Rightarrow>
          (if 2000 < length s
           then [\<lparr>path = [''description''],
                  message = ''Description must be less than 2000 characters''\<rparr>]
           else []))"

definition range_issues :: "number \<Rightarrow> zod_issue list" where
  "range_issues x =
     (if x < 0
      then [\<lparr>path = [''percent''],
             message = ''Number must be greater than or equal to 0''\<rparr>]
      else if 100 < x
      then [\<lparr>path = [''percent''],
             message = ''Number must be less than or equal to 100''\<rparr>]
      else [])"

definition form_percent_issues :: "form_number \<Rightarrow> zod_issue list" where
  "form_percent_issues v =
     (case v of
        Undefined \<Rightarrow> []
      | NaN \<Rightarrow> [\<lparr>path = [''percent''], message = ''Expected number, received nan''\<rparr>]
      | Num x \<Rightarrow> range_issues x)"

definition dialog_taskSchema :: "TaskFormData \<Rightarrow> zod_issue list + TaskFormData" where
  "dialog_taskSchema d =
     (let issues = title_issues (fd_title d) @ description_issues (fd_description d)
                   @ form_percent_issues (fd_percent d)
      in if issues = [] then Inr d else Inl issues)"

text \<open>The percent of a JSON payload: absent, or a number in the same range.\<close>

definition percent_issues :: "number option \<Rightarrow> zod_issue list" where
  "percent_issues v = (case v of None \<Rightarrow> [] | Some x \<Rightarrow> range_issues x)"

section \<open>All-tasks view\<close>

text \<open>
  What a task's card shows as progress: the checklist bar when the task has items, the
  manual bar when it has none and a positive percent, and no bar otherwise.
\<close>

definition card_progress :: "task \<Rightarrow> number option" where
  "card_progress t =
     (if length (items t) > 0
      then Some (of_int (Math_round
             (js_mul (js_div (of_nat (checked_count (items t)))
                             (of_nat (length (items t)))) 100)))
      else if length (items t) = 0 \<and> percent t > 0 then Some (percent t)
      else None)"

text \<open>
  Strings are sequences of the code units below 256, read as Latin-1. On these,
  \<open>toLowerCase\<close> changes the letters A to Z and the accented capitals from
  \<open>0xC0\<close> to \<open>0xDE\<close> (the sign \<open>0xD7\<close> is no letter), each to the code unit 32 above it.
  \<open>includes\<close> is \<open>js_includes\<close>.
\<close>

definition lower_table :: "(char \<times> char) list" where
  "lower_table = zip ''ABCDEFGHIJKLMNOPQRSTUVWXYZ'' ''abcdefghijklmnopqrstuvwxyz''"

definition latin1_table :: "(char \<times> char) list" where
  "latin1_table =
     zip [CHR 0xC0, CHR 0xC1, CHR 0xC2, CHR 0xC3, CHR 0xC4, CHR 0xC5, CHR 0xC6, CHR 0xC7,
          CHR 0xC8, CHR 0xC9, CHR 0xCA, CHR 0xCB, CHR 0xCC, CHR 0xCD, CHR 0xCE, CHR 0xCF,
          CHR 0xD0, CHR 0xD1, CHR 0xD2, CHR 0xD3, CHR 0xD4, CHR 0xD5, CHR 0xD6,
          CHR 0xD8, CHR 0xD9, CHR 0xDA, CHR 0xDB, CHR 0xDC, CHR 0xDD, CHR 0xDE]
         [CHR 0xE0, CHR 0xE1, CHR 0xE2, CHR 0xE3, CHR 0xE4, CHR 0xE5, CHR 0xE6, CHR 0xE7,
          CHR 0xE8, CHR 0xE9, CHR 0xEA, CHR 0xEB, CHR 0xEC, CHR 0xED, CHR 0xEE, CHR 0xEF,
          CHR 0xF0, CHR 0xF1, CHR 0xF2, CHR 0xF3, CHR 0xF4, CHR 0xF5, CHR 0xF6,
          CHR 0xF8, CHR 0xF9, CHR 0xFA, CHR 0xFB, CHR 0xFC, CHR 0xFD, CHR 0xFE]"

definition lower_char :: "char \<Rightarrow> char" where
  "lower_char c = (case map_of (lower_table @ latin1_table) c of Some l \<Rightarrow> l | None \<Rightarrow> c)"

text \<open>The letters A to Z alone, for matching without case in a regular expression.\<close>

definition ascii_lower_char :: "char \<Rightarrow> char" where
  "ascii_lower_char c = (case map_of lower_table c of Some l \<Rightarrow> l | None \<Rightarrow> c)"

definition toLowerCase :: "string \<Rightarrow> string" where
  "toLowerCase s = map lower_char s"

definition starts_with :: "'a list \<Rightarrow> 'a list \<Rightarrow> bool" where
  "starts_with s q = (take (length q) s = q)"

fun js_includes :: "'a list \<Rightarrow> 'a list \<Rightarrow> bool" where
  "js_includes [] q = (q = [])"
| "js_includes (c # cs) q = (starts_with (c # cs) q \<or> js_includes cs q)"

text \<open>The search part of the filter effect; \<open>task.description && ...\<close> is false for
  a missing or empty description.\<close>

definition search_matches :: "string \<Rightarrow> task \<Rightarrow> bool" where
  "search_matches searchQuery t =
     (js_includes (toLowerCase (title t)) (toLowerCase searchQuery)
      \<or> (case description t of None \<Rightarrow> False
          | Some d \<Rightarrow> d \<noteq> [] \<and> js_includes (toLowerCase d) (toLowerCase searchQuery)))"

definition filterTasks :: "task list \<Rightarrow> string \<Rightarrow> string \<Rightarrow> string \<Rightarrow> task list" where
  "filterTasks tasks searchQuery statusFilter priorityFilter =
     (let f1 = (if searchQuery \<noteq> [] then filter (search_matches searchQuery) tasks
                else tasks);
          f2 = (if statusFilter \<noteq> ''all''
                then filter (\<lambda>t. status_name (status t) = statusFilter) f1 else f1);
          f3 = (if priorityFilter \<noteq> ''all''
                then filter (\<lambda>t. priority_name (priority t) = priorityFilter) f2 else f2)
      in f3)"

text \<open>The list updates after a successful DELETE and a successful status PATCH.\<close>

definition handleTaskDelete :: "nat \<Rightarrow> task list \<Rightarrow> task list" where
  "handleTaskDelete taskId prevTasks = filter (\<lambda>t. task_id t \<noteq> taskId) prevTasks"

definition handleStatusChange :: "nat \<Rightarrow> status \<Rightarrow> task list \<Rightarrow> task list" where
  "handleStatusChange taskId newStatus prevTasks =
     map (\<lambda>t. if task_id t = taskId then t\<lparr>status := newStatus\<rparr> else t) prevTasks"

section \<open>Timeline\<close>


text \<open>
  What a cell of the grid draws: tasks, and in the month views a line that counts the
  tasks left out. A week cell draws the whole list of the day; a month cell draws
  \<open>dayTasks.slice(0, k)\<close> and the line \<open>+N more\<close> when the list is longer.
\<close>

record cell =
  drawn :: "task list"
  more_count :: "nat option"


definition month_cell :: "nat \<Rightarrow> task list \<Rightarrow> cell" where
  "month_cell k dayTasks =
     \<lparr>drawn = take k dayTasks,
      more_count = (if length dayTasks > k then Some (length dayTasks - k) else None)\<rparr>"

text \<open>The progress bar of a task in a week cell, in both components:
  \<open>task.percent > 0 && <Progress value={task.percent} />\<close>. Month cells draw titles
  only.\<close>

definition week_cell_progress :: "task \<Rightarrow> number option" where
  "week_cell_progress t = (if percent t > 0 then Some (percent t) else None)"


subsection \<open>The first timeline component\<close>




subsection \<open>The second timeline component\<close>








section \<open>The route /api/tasks\<close>

subsection \<open>Session, responses, database\<close>

record session_user =
  user_id :: "string option"

record session =
  user :: "session_user option"

text \<open>\<open>session?.user?.id\<close>, with \<open>None\<close> for every falsy outcome: no session, no
  user, no id, or the empty id.\<close>

definition session_user_id :: "session option \<Rightarrow> string option" where
  "session_user_id s =
     (case s of None \<Rightarrow> None
      | Some se \<Rightarrow>
          (case user se of None \<Rightarrow> None
           | Some u \<Rightarrow>
               (case user_id u of None \<Rightarrow> None
                | Some i \<Rightarrow> if i = [] then None else Some i)))"

datatype response_body =
    ErrorBody string
  | ValidationErrorBody string "zod_issue list"
  | TasksBody "task list"
  | TaskBody task

record response =
  http_status :: nat
  body :: response_body

definition unauthorized :: response where
  "unauthorized = \<lparr>http_status = 401, body = ErrorBody ''Unauthorized''\<rparr>"

definition internal_server_error :: response where
  "internal_server_error = \<lparr>http_status = 500, body = ErrorBody ''Internal server error''\<rparr>"

text \<open>
  The task collection, the counter that stands for the identifiers the database hands
  out, and the calls the handlers have made to the database so far. The database is
  taken to be reachable and to accept every document the task schema accepted.
\<close>

datatype db_call = ConnectDB | Find | FindOne | Create

record database =
  documents :: "task list"
  next_id :: nat
  calls :: "db_call list"

definition connectDB :: "database \<Rightarrow> database" where
  "connectDB db = db\<lparr>calls := calls db @ [ConnectDB]\<rparr>"

definition defined :: "'a option \<Rightarrow> bool" where
  "defined v = (case v of None \<Rightarrow> False | Some _ \<Rightarrow> True)"

subsection \<open>Query filters\<close>

datatype date_condition = StartOrDueGte int | StartOrDueLte int

record task_filter =
  f_userId :: string
  f_status :: "status option"
  f_or :: "string option"
  f_and :: "date_condition list option"

text \<open>A comparison on a field that the document lacks does not match.\<close>

definition field_gte :: "int option \<Rightarrow> int \<Rightarrow> bool" where
  "field_gte v b = (case v of None \<Rightarrow> False | Some x \<Rightarrow> b \<le> x)"

definition field_lte :: "int option \<Rightarrow> int \<Rightarrow> bool" where
  "field_lte v b = (case v of None \<Rightarrow> False | Some x \<Rightarrow> x \<le> b)"

fun date_condition_holds :: "date_condition \<Rightarrow> task \<Rightarrow> bool" where
  "date_condition_holds (StartOrDueGte a) t = (field_gte (startAt t) a \<or> field_gte (dueAt t) a)"
| "date_condition_holds (StartOrDueLte b) t = (field_lte (startAt t) b \<or> field_lte (dueAt t) b)"

text \<open>
  The database's regular expressions with option \<open>i\<close> are a parameter: the engine
  compiles a pattern to a test on subjects, or rejects it (\<open>None\<close>).
\<close>

type_synonym regex_engine = "string \<Rightarrow> (string \<Rightarrow> bool) option"

definition matches :: "(string \<Rightarrow> bool) \<Rightarrow> task_filter \<Rightarrow> task \<Rightarrow> bool" where
  "matches rx f t =
     (userId t = f_userId f
      \<and> (case f_status f of None \<Rightarrow> True | Some s \<Rightarrow> status t = s)
      \<and> (case f_or f of None \<Rightarrow> True
          | Some q \<Rightarrow> rx (title t) \<or> (case description t of None \<Rightarrow> False | Some d \<Rightarrow> rx d))
      \<and> (case f_and f of None \<Rightarrow> True
          | Some cs \<Rightarrow> list_all (\<lambda>c. date_condition_holds c t) cs))"

text \<open>\<open>Task.find(filter)\<close>; a pattern the engine rejects makes the query throw.\<close>

definition Task_find :: "regex_engine \<Rightarrow> task_filter \<Rightarrow> database \<Rightarrow> database \<times> task list option" where
  "Task_find regex f db =
     (let db' = db\<lparr>calls := calls db @ [Find]\<rparr>
      in case f_or f of
           None \<Rightarrow> (db', Some (filter (matches (\<lambda>s. False) f) (documents db)))
         | Some q \<Rightarrow>
             (case regex q of
                None \<Rightarrow> (db', None)
              | Some rx \<Rightarrow> (db', Some (filter (matches rx f) (documents db)))))"

text \<open>\<open>.sort({ status: 1, order: 1 })\<close>: by the status names as strings, then by
  order.\<close>

definition status_rank :: "status \<Rightarrow> nat" where
  "status_rank s = (case s of Backlog \<Rightarrow> 0 | Done \<Rightarrow> 1 | In_progress \<Rightarrow> 2)"

definition sort_status_order :: "task list \<Rightarrow> task list" where
  "sort_status_order ts = sort_key (\<lambda>t. status_rank (status t)) (sort_key order ts)"

text \<open>\<open>Task.findOne({ userId, status }).sort({ order: -1 })\<close>: the first document
  of the matching ones in descending order.\<close>

definition Task_findOne_last :: "string \<Rightarrow> status \<Rightarrow> database \<Rightarrow> database \<times> task option" where
  "Task_findOne_last uid st db =
     (db\<lparr>calls := calls db @ [FindOne]\<rparr>,
      case rev (sort_key order (filter (\<lambda>t. userId t = uid \<and> status t = st) (documents db))) of
        [] \<Rightarrow> None
      | t # _ \<Rightarrow> Some t)"

subsection \<open>GET\<close>

record query_input =
  in_status :: "string option"
  in_q :: "string option"
  in_from :: "string option"
  in_to :: "string option"

record query =
  q_status :: "status option"
  q_q :: "string option"
  q_from :: "int option"
  q_to :: "int option"

definition searchParams_get :: "(string \<times> string) list \<Rightarrow> string \<Rightarrow> string option" where
  "searchParams_get searchParams k = map_of searchParams k"

text \<open>\<open>v || undefined\<close> on a string or \<open>null\<close>.\<close>

definition or_undefined :: "string option \<Rightarrow> string option" where
  "or_undefined v = (case v of None \<Rightarrow> None | Some s \<Rightarrow> if s = [] then None else Some s)"

definition truthy :: "string option \<Rightarrow> bool" where
  "truthy v = (case v of None \<Rightarrow> False | Some s \<Rightarrow> s \<noteq> [])"

definition build_filter :: "string \<Rightarrow> query \<Rightarrow> task_filter" where
  "build_filter uid query =
     (let filter0 = \<lparr>f_userId = uid, f_status = None, f_or = None, f_and = None\<rparr>;
          filter1 = (if defined (q_status query) then filter0\<lparr>f_status := q_status query\<rparr>
                     else filter0);
          filter2 = (if truthy (q_q query) then filter1\<lparr>f_or := q_q query\<rparr> else filter1);
          filter3 = (if defined (q_from query) \<or> defined (q_to query)
                     then filter2\<lparr>f_and := Some
                            ((case q_from query of None \<Rightarrow> [] | Some a \<Rightarrow> [StartOrDueGte a])
                             @ (case q_to query of None \<Rightarrow> [] | Some b \<Rightarrow> [StartOrDueLte b]))\<rparr>
                     else filter2)
      in filter3)"

text \<open>The object the handler passes to the query schema: the four parameters it
  reads, whatever else the URL carries.\<close>

definition query_input_of :: "(string \<times> string) list \<Rightarrow> query_input" where
  "query_input_of searchParams =
     \<lparr>in_status = or_undefined (searchParams_get searchParams ''status''),
      in_q = or_undefined (searchParams_get searchParams ''q''),
      in_from = or_undefined (searchParams_get searchParams ''from''),
      in_to = or_undefined (searchParams_get searchParams ''to'')\<rparr>"

text \<open>
  The handler. Its \<open>catch\<close> answers every exception, a validation error of the query
  schema included, with status 500.
\<close>

definition GET ::
    "(query_input \<Rightarrow> zod_issue list + query) \<Rightarrow> regex_engine \<Rightarrow> session option
      \<Rightarrow> (string \<times> string) list \<Rightarrow> database \<Rightarrow> database \<times> response" where
  "GET getTasksQuerySchema regex session searchParams db =
     (case session_user_id session of
        None \<Rightarrow> (db, unauthorized)
      | Some uid \<Rightarrow>
          (case getTasksQuerySchema (query_input_of searchParams) of
             Inl issues \<Rightarrow> (db, internal_server_error)
           | Inr query \<Rightarrow>
               (case Task_find regex (build_filter uid query) (connectDB db) of
                  (db', None) \<Rightarrow> (db', internal_server_error)
                | (db', Some found) \<Rightarrow>
                    (db', \<lparr>http_status = 200, body = TasksBody (sort_status_order found)\<rparr>))))"

subsection \<open>POST\<close>

text \<open>What the task schema hands to \<open>Task.create\<close>.\<close>

record task_data =
  td_title :: string
  td_description :: "string option"
  td_status :: status
  td_priority :: priority
  td_tags :: "string list"
  td_startAt :: "int option"
  td_dueAt :: "int option"
  td_items :: "checklist_item list"
  td_percent :: number

text \<open>\<open>Task.create({ ...taskData, userId, order })\<close>: the handler's \<open>userId\<close> and
  \<open>order\<close> come after the spread, so they are the ones stored.\<close>

definition new_task :: "task_data \<Rightarrow> string \<Rightarrow> int \<Rightarrow> nat \<Rightarrow> task" where
  "new_task taskData uid ord i =
     \<lparr>task_id = i, userId = uid, title = td_title taskData,
      description = td_description taskData, status = td_status taskData,
      priority = td_priority taskData, order = ord, tags = td_tags taskData,
      startAt = td_startAt taskData, dueAt = td_dueAt taskData,
      items = td_items taskData, percent = td_percent taskData\<rparr>"

definition Task_create :: "task_data \<Rightarrow> string \<Rightarrow> int \<Rightarrow> database \<Rightarrow> database \<times> task" where
  "Task_create taskData uid ord db =
     (let t = new_task taskData uid ord (next_id db)
      in (db\<lparr>documents := documents db @ [t], next_id := next_id db + 1,
              calls := calls db @ [Create]\<rparr>, t))"

text \<open>
  The handler. \<open>request_json\<close> is the parsed body, \<open>None\<close> when \<open>request.json()\<close>
  throws; only a validation error of the task schema is answered with status 400.
\<close>

definition POST ::
    "('b \<Rightarrow> zod_issue list + task_data) \<Rightarrow> session option \<Rightarrow> 'b option \<Rightarrow> database
      \<Rightarrow> database \<times> response" where
  "POST taskSchema session request_json db =
     (case session_user_id session of
        None \<Rightarrow> (db, unauthorized)
      | Some uid \<Rightarrow>
          (case request_json of
             None \<Rightarrow> (db, internal_server_error)
           | Some json \<Rightarrow>
               (case taskSchema json of
                  Inl issues \<Rightarrow>
                    (db, \<lparr>http_status = 400,
                          body = ValidationErrorBody ''Validation error'' issues\<rparr>)
                | Inr taskData \<Rightarrow>
                    (case Task_findOne_last uid (td_status taskData) (connectDB db) of
                       (db', lastTask) \<Rightarrow>
                         (let ord = (case lastTask of Some l \<Rightarrow> order l + 1 | None \<Rightarrow> 0)
                          in case Task_create taskData uid ord db' of
                               (db'', t) \<Rightarrow> (db'', \<lparr>http_status = 201, body = TaskBody t\<rparr>))))))"

text \<open>
  The handler awaits the lookup of the last task and the insert one after the other,
  and another request can be served between the two. \<open>POST_lookup\<close> is the handler up
  to and including the lookup: it ends with a response (401, 500, 400) or with the
  insert still to do. \<open>POST_insert\<close> is the rest.
\<close>

record pending_insert =
  pi_taskData :: task_data
  pi_userId :: string
  pi_order :: int

definition POST_lookup ::
    "('b \<Rightarrow> zod_issue list + task_data) \<Rightarrow> session option \<Rightarrow> 'b option \<Rightarrow> database
      \<Rightarrow> database \<times> (response + pending_insert)" where
  "POST_lookup taskSchema session request_json db =
     (case session_user_id session of
        None \<Rightarrow> (db, Inl unauthorized)
      | Some uid \<Rightarrow>
          (case request_json of
             None \<Rightarrow> (db, Inl internal_server_error)
           | Some json \<Rightarrow>
               (case taskSchema json of
                  Inl issues \<Rightarrow>
                    (db, Inl \<lparr>http_status = 400,
                              body = ValidationErrorBody ''Validation error'' issues\<rparr>)
                | Inr taskData \<Rightarrow>
                    (case Task_findOne_last uid (td_status taskData) (connectDB db) of
                       (db', lastTask) \<Rightarrow>
                         (db', Inr \<lparr>pi_taskData = taskData, pi_userId = uid,
                                    pi_order = (case lastTask of Some l \<Rightarrow> order l + 1
                                                | None \<Rightarrow> 0)\<rparr>)))))"

definition POST_insert :: "pending_insert \<Rightarrow> database \<Rightarrow> database \<times> response" where
  "POST_insert p db =
     (case Task_create (pi_taskData p) (pi_userId p) (pi_order p) db of
        (db', t) \<Rightarrow> (db', \<lparr>http_status = 201, body = TaskBody t\<rparr>))"


subsection \<open>Reordering\<close>



subsection \<open>The validation schemas\<close>

text \<open>
  Modelled from the spec: \<open>getTasksQuerySchema\<close> of \<open>lib/validations.ts\<close> is not
  among the sources. The spec names the query parameters (status, free-text search,
  date range from/to) and the three statuses; a status outside them and a date that
  does not parse are validation failures. \<open>parseDate\<close> reads a date string.
\<close>

definition getTasksQuerySchema :: "(string \<Rightarrow> int option) \<Rightarrow> query_input \<Rightarrow> zod_issue list + query" where
  "getTasksQuerySchema parseDate i =
     (let issues =
            (case in_status i of None \<Rightarrow> []
             | Some s \<Rightarrow> (if defined (status_of_string s) then []
                          else [\<lparr>path = [''status''], message = ''Invalid enum value''\<rparr>]))
            @ (case in_from i of None \<Rightarrow> []
               | Some s \<Rightarrow> (if defined (parseDate s) then []
                            else [\<lparr>path = [''from''], message = ''Invalid date''\<rparr>]))
            @ (case in_to i of None \<Rightarrow> []
               | Some s \<Rightarrow> (if defined (parseDate s) then []
                            else [\<lparr>path = [''to''], message = ''Invalid date''\<rparr>]))
      in if issues = []
         then Inr \<lparr>q_status = Option.bind (in_status i) status_of_string, q_q = in_q i,
                   q_from = Option.bind (in_from i) parseDate,
                   q_to = Option.bind (in_to i) parseDate\<rparr>
         else Inl issues)"

text \<open>
  Modelled from the spec: the server's \<open>taskSchema\<close> of \<open>lib/validations.ts\<close> and the
  defaults of the task model are not among the sources. The field constraints are
  those of the dialog's schema of the same name (title of 3 to 120 characters,
  description of at most 2000, percent from 0 to 100, the three statuses and
  priorities); the defaults are the spec's: status backlog, percent 0, no tags, no
  checklist. The priority defaults to the dialog's default, med. A payload is a JSON
  object whose present fields have the right JSON type; dates are instants.
\<close>

record payload =
  p_title :: "string option"
  p_description :: "string option"
  p_status :: "string option"
  p_priority :: "string option"
  p_tags :: "string list option"
  p_startAt :: "int option"
  p_dueAt :: "int option"
  p_items :: "checklist_item list option"
  p_percent :: "number option"

definition taskSchema :: "payload \<Rightarrow> zod_issue list + task_data" where
  "taskSchema p =
     (let issues =
            (case p_title p of
               None \<Rightarrow> [\<lparr>path = [''title''], message = ''Required''\<rparr>]
             | Some s \<Rightarrow> title_issues s)
            @ description_issues (p_description p)
            @ (case p_status p of None \<Rightarrow> []
               | Some s \<Rightarrow> (if defined (status_of_string s) then []
                            else [\<lparr>path = [''status''], message = ''Invalid enum value''\<rparr>]))
            @ (case p_priority p of None \<Rightarrow> []
               | Some s \<Rightarrow> (if defined (priority_of_string s) then []
                            else [\<lparr>path = [''priority''], message = ''Invalid enum value''\<rparr>]))
            @ percent_issues (p_percent p)
      in if issues = []
         then Inr \<lparr>td_title = (case p_title p of None \<Rightarrow> [] | Some s \<Rightarrow> s),
                   td_description = p_description p,
                   td_status = (case Option.bind (p_status p) status_of_string of
                                  None \<Rightarrow> Backlog | Some s \<Rightarrow> s),
                   td_priority = (case Option.bind (p_priority p) priority_of_string of
                                    None \<Rightarrow> Med | Some x \<Rightarrow> x),
                   td_tags = (case p_tags p of None \<Rightarrow> [] | Some ts \<Rightarrow> ts),
                   td_startAt = p_startAt p,
                   td_dueAt = p_dueAt p,
                   td_items = (case p_items p of None \<Rightarrow> [] | Some is \<Rightarrow> is),
                   td_percent = (case p_percent p of None \<Rightarrow> 0 | Some x \<Rightarrow> x)\<rparr>
         else Inl issues)"

subsection \<open>A fragment of the regular expressions\<close>

text \<open>
  Enough of the engine to run a search: a pattern made of ordinary characters and the
  wildcard \<open>.\<close> (any character but a line feed), found anywhere in the subject,
  letters compared without case. The fragment rejects every pattern that uses another
  metacharacter; what the database does with those is not modelled.
\<close>

definition metacharacters :: "char list" where
  "metacharacters = [CHR ''^'', CHR ''$'', CHR ''*'', CHR ''+'', CHR ''?'', CHR ''('', CHR '')'',
     CHR ''['', CHR '']'', CHR ''{'', CHR ''}'', CHR ''|'', CHR 0x5C]"

fun matches_here :: "string \<Rightarrow> string \<Rightarrow> bool" where
  "matches_here [] s = True"
| "matches_here (p # ps) [] = False"
| "matches_here (p # ps) (c # cs) =
     ((if p = CHR ''.'' then c \<noteq> CHR 0x0A else ascii_lower_char p = ascii_lower_char c)
      \<and> matches_here ps cs)"

fun matches_anywhere :: "string \<Rightarrow> string \<Rightarrow> bool" where
  "matches_anywhere p [] = matches_here p []"
| "matches_anywhere p (c # cs) = (matches_here p (c # cs) \<or> matches_anywhere p cs)"

definition regex_fragment :: regex_engine where
  "regex_fragment q =
     (if list_ex (\<lambda>c. c \<in> set metacharacters) q then None else Some (matches_anywhere q))"

section \<open>The stated properties, in the spec's words\<close>

text \<open>A percent clamped into the interval from 0 to 100.\<close>

definition clamp_percent :: "number \<Rightarrow> number" where
  "clamp_percent x = max 0 (min 100 x)"

text \<open>The progress the spec gives a checklist: round(100 \<times> checked / total), on exact
  numbers, a tie going up.\<close>

definition rounded_percentage :: "nat \<Rightarrow> nat \<Rightarrow> int" where
  "rounded_percentage c n = \<lfloor>100 * (of_nat c :: rat) / of_nat n + 1 / 2\<rfloor>"


text \<open>The orders of a user's tasks in a status column, and what it means for them to
  be the numbers 0 to n-1.\<close>

definition column_orders :: "string \<Rightarrow> status \<Rightarrow> task list \<Rightarrow> int list" where
  "column_orders uid st docs = map order (filter (\<lambda>t. userId t = uid \<and> status t = st) docs)"


text \<open>The order the spec gives a new task: one more than the largest order in its
  column, or 0 in an empty column.\<close>

definition next_order :: "string \<Rightarrow> status \<Rightarrow> task list \<Rightarrow> int" where
  "next_order uid st docs =
     (if column_orders uid st docs = [] then 0 else Max (set (column_orders uid st docs)) + 1)"

section \<open>Example data\<close>

definition example_task :: "nat \<Rightarrow> string \<Rightarrow> string \<Rightarrow> status \<Rightarrow> int \<Rightarrow> task" where
  "example_task i uid ttl st ord =
     \<lparr>task_id = i, userId = uid, title = ttl, description = None, status = st,
      priority = Med, order = ord, tags = [], startAt = None, dueAt = None, items = [],
      percent = 0\<rparr>"

definition example_session :: "string \<Rightarrow> session option" where
  "example_session uid = Some \<lparr>user = Some \<lparr>user_id = Some uid\<rparr>\<rparr>"

definition example_payload :: "string \<Rightarrow> string option \<Rightarrow> payload" where
  "example_payload ttl st =
     \<lparr>p_title = Some ttl, p_description = None, p_status = st, p_priority = None,
      p_tags = None, p_startAt = None, p_dueAt = None, p_items = None, p_percent = None\<rparr>"

definition empty_database :: database where
  "empty_database = \<lparr>documents = [], next_id = 0, calls = []\<rparr>"



definition example_checklist :: "nat \<Rightarrow> nat \<Rightarrow> checklist_item list" where
  "example_checklist c n =
     replicate c \<lparr>label = ''item'', checked = True\<rparr>
     @ replicate (n - c) \<lparr>label = ''item'', checked = False\<rparr>"

section \<open>Properties\<close>

lemma length_colors: "length colors = 10"
  by (simp add: colors_def)

lemma getUserColor_index_bound: "getUserColor_index uid < length colors"
  by (simp add: getUserColor_index_def length_colors Math_abs_def nat_less_iff)

text \<open>
  C10. For every uid, the empty one included, the index that getUserColor computes
  lies inside the ten-entry palette, so the result is a defined palette entry; equal
  uids give equal colours.
\<close>

theorem getUserColor_defined:
  "getUserColor_index uid < 10
   \<and> getUserColor uid = Some (colors ! getUserColor_index uid)
   \<and> colors ! getUserColor_index uid \<in> set colors
   \<and> getUserColor [] = Some ''bg-blue-500''
   \<and> (uid = uid' \<longrightarrow> getUserColor uid = getUserColor uid')"
proof -
  have b: "getUserColor_index uid < length colors"
    by (rule getUserColor_index_bound)
  have e: "getUserColor [] = Some ''bg-blue-500''"
    by (simp add: getUserColor_def array_get_def getUserColor_index_def hash_def
        Math_abs_def colors_def)
  from b e show ?thesis
    by (simp add: getUserColor_def array_get_def length_colors)
qed

theorem getUserColor_defined_witness:
  "getUserColor_index [0x75, 0x31] < 10
   \<and> getUserColor [0x75, 0x31] = Some (colors ! getUserColor_index [0x75, 0x31])
   \<and> getUserColor [0x75, 0x31] = getUserColor [0x75, 0x31]"
  using getUserColor_defined [of "[0x75, 0x31]" "[0x75, 0x31]"] by simp

text \<open>
  C6. A GET or POST request without a session, or whose session has no user id, is
  answered with status 401, and the database is returned as it was: no call to it is
  made and no document changes.
\<close>

theorem unauthenticated_requests_rejected:
  assumes "session_user_id session = None"
  shows "GET qschema regex session searchParams db = (db, unauthorized)
       \<and> POST tschema session request_json db = (db, unauthorized)
       \<and> http_status unauthorized = 401"
  using assms by (simp add: GET_def POST_def unauthorized_def)

theorem unauthenticated_requests_rejected_witness:
  "session_user_id (Some \<lparr>user = Some \<lparr>user_id = Some []\<rparr>\<rparr>) = None
   \<and> GET (getTasksQuerySchema (\<lambda>s. None)) regex_fragment (Some \<lparr>user = Some \<lparr>user_id = Some []\<rparr>\<rparr>)
        [(''status'', ''done'')] \<lparr>documents = [], next_id = 0, calls = []\<rparr>
       = (\<lparr>documents = [], next_id = 0, calls = []\<rparr>, unauthorized)
   \<and> POST taskSchema None (Some \<lparr>p_title = Some ''Write spec'', p_description = None,
          p_status = Some ''backlog'', p_priority = None, p_tags = None, p_startAt = None,
          p_dueAt = None, p_items = None, p_percent = None\<rparr>)
        \<lparr>documents = [], next_id = 0, calls = []\<rparr>
       = (\<lparr>documents = [], next_id = 0, calls = []\<rparr>, unauthorized)"
proof -
  have h: "session_user_id (Some \<lparr>user = Some \<lparr>user_id = Some []\<rparr>\<rparr>) = None"
    by (simp add: session_user_id_def)
  have h2: "session_user_id None = None"
    by (simp add: session_user_id_def)
  show ?thesis
    using
      unauthenticated_requests_rejected [OF h, where qschema = "getTasksQuerySchema (\<lambda>s. None)"
        and regex = regex_fragment and searchParams = "[(''status'', ''done'')]"
        and db = "\<lparr>documents = [], next_id = 0, calls = []\<rparr>"
        and tschema = taskSchema and request_json = None]
      unauthenticated_requests_rejected [OF h2, where qschema = "getTasksQuerySchema (\<lambda>s. None)"
        and regex = regex_fragment and searchParams = "[(''status'', ''done'')]"
        and db = "\<lparr>documents = [], next_id = 0, calls = []\<rparr>"
        and tschema = taskSchema
        and request_json = "Some \<lparr>p_title = Some ''Write spec'', p_description = None,
          p_status = Some ''backlog'', p_priority = None, p_tags = None, p_startAt = None,
          p_dueAt = None, p_items = None, p_percent = None\<rparr>"] h
    by simp
qed

lemma set_sort_status_order: "set (sort_status_order ts) = set ts"
  by (simp add: sort_status_order_def)

lemma filter_remove1_other:
  "\<not> P d \<Longrightarrow> filter P (remove1 d xs) = filter P xs"
  by (induction xs) auto

lemma Task_find_remove1:
  assumes "userId d \<noteq> f_userId f"
  shows "snd (Task_find regex f (db\<lparr>documents := remove1 d (documents db)\<rparr>)) = snd (Task_find regex f db)"
proof -
  have "\<not> matches rx f d" for rx using assms by (simp add: matches_def)
  then have "filter (matches rx f) (remove1 d (documents db)) = filter (matches rx f) (documents db)" for rx
    by (rule filter_remove1_other)
  then show ?thesis
    by (simp add: Task_find_def Let_def split: option.splits)
qed

lemma f_userId_build_filter: "f_userId (build_filter uid query) = uid"
  by (simp add: build_filter_def Let_def)

lemma Task_find_userId:
  "Task_find regex f db = (db', Some found) \<Longrightarrow> t \<in> set found \<Longrightarrow> userId t = f_userId f \<and> t \<in> set (documents db)"
  by (auto simp: Task_find_def Let_def matches_def split: option.splits)

lemma GET_response:
  assumes "session_user_id session = Some uid"
  shows "snd (GET schema regex session searchParams db) =
     (case schema (query_input_of searchParams) of
        Inl issues \<Rightarrow> internal_server_error
      | Inr query \<Rightarrow>
          (case snd (Task_find regex (build_filter uid query) (connectDB db)) of
             None \<Rightarrow> internal_server_error
           | Some found \<Rightarrow> \<lparr>http_status = 200, body = TasksBody (sort_status_order found)\<rparr>))"
  using assms
  by (auto simp: GET_def split: sum.splits option.splits prod.splits)

text \<open>
  C4. Whatever the query parameters, every task in the list that GET returns is a
  stored task of the session's user; so removing a task of another user leaves the
  response unchanged.
\<close>

theorem GET_scoped_to_session_user:
  assumes "session_user_id session = Some uid"
  shows "(body (snd (GET schema regex session searchParams db)) = TasksBody found
            \<longrightarrow> list_all (\<lambda>t. userId t = uid \<and> t \<in> set (documents db)) found)
       \<and> (userId d \<noteq> uid
            \<longrightarrow> snd (GET schema regex session searchParams (db\<lparr>documents := remove1 d (documents db)\<rparr>))
                = snd (GET schema regex session searchParams db))"
proof (intro conjI impI)
  assume b: "body (snd (GET schema regex session searchParams db)) = TasksBody found"
  show "list_all (\<lambda>t. userId t = uid \<and> t \<in> set (documents db)) found"
    using assms b
    by (auto simp: GET_def internal_server_error_def list_all_iff set_sort_status_order
        f_userId_build_filter connectDB_def
        split: sum.splits option.splits prod.splits dest!: Task_find_userId)
next
  assume d: "userId d \<noteq> uid"
  have c: "connectDB (db\<lparr>documents := remove1 d (documents db)\<rparr>) = (connectDB db)\<lparr>documents := remove1 d (documents (connectDB db))\<rparr>"
    by (simp add: connectDB_def)
  have "snd (Task_find regex (build_filter uid q) (connectDB (db\<lparr>documents := remove1 d (documents db)\<rparr>)))
      = snd (Task_find regex (build_filter uid q) (connectDB db))" for q
    unfolding c using d by (intro Task_find_remove1) (simp add: f_userId_build_filter)
  then show "snd (GET schema regex session searchParams (db\<lparr>documents := remove1 d (documents db)\<rparr>))
                = snd (GET schema regex session searchParams db)"
    by (simp add: GET_response [OF assms] split: sum.splits)
qed


theorem GET_scoped_to_session_user_witness:
  "session_user_id (example_session ''u1'') = Some ''u1''
   \<and> body (snd (GET (getTasksQuerySchema (\<lambda>s. None)) regex_fragment (example_session ''u1'')
         [(''scope'', ''all'')]
         \<lparr>documents = [example_task 1 ''u1'' ''Write spec'' Backlog 0,
                       example_task 2 ''u2'' ''Review'' Backlog 0],
          next_id = 3, calls = []\<rparr>))
      = TasksBody [example_task 1 ''u1'' ''Write spec'' Backlog 0]
   \<and> list_all (\<lambda>t. userId t = ''u1'') [example_task 1 ''u1'' ''Write spec'' Backlog 0]
   \<and> snd (GET (getTasksQuerySchema (\<lambda>s. None)) regex_fragment (example_session ''u1'')
         [(''scope'', ''all'')]
         \<lparr>documents = [example_task 1 ''u1'' ''Write spec'' Backlog 0], next_id = 3, calls = []\<rparr>)
     = snd (GET (getTasksQuerySchema (\<lambda>s. None)) regex_fragment (example_session ''u1'')
         [(''scope'', ''all'')]
         \<lparr>documents = [example_task 1 ''u1'' ''Write spec'' Backlog 0,
                       example_task 2 ''u2'' ''Review'' Backlog 0],
          next_id = 3, calls = []\<rparr>)"
proof -
  have h: "session_user_id (example_session ''u1'') = Some ''u1''"
    by (simp add: session_user_id_def example_session_def)
  have g: "body (snd (GET (getTasksQuerySchema (\<lambda>s. None)) regex_fragment (example_session ''u1'')
         [(''scope'', ''all'')]
         \<lparr>documents = [example_task 1 ''u1'' ''Write spec'' Backlog 0,
                       example_task 2 ''u2'' ''Review'' Backlog 0],
          next_id = 3, calls = []\<rparr>))
      = TasksBody [example_task 1 ''u1'' ''Write spec'' Backlog 0]"
    by (simp add: GET_def h getTasksQuerySchema_def query_input_of_def or_undefined_def
        searchParams_get_def build_filter_def defined_def truthy_def Task_find_def connectDB_def
        matches_def sort_status_order_def example_task_def)
  show ?thesis
    using h g
      GET_scoped_to_session_user [OF h, where schema = "getTasksQuerySchema (\<lambda>s. None)"
        and regex = regex_fragment and searchParams = "[(''scope'', ''all'')]"
        and db = "\<lparr>documents = [example_task 1 ''u1'' ''Write spec'' Backlog 0,
                       example_task 2 ''u2'' ''Review'' Backlog 0], next_id = 3, calls = []\<rparr>"
        and found = "[example_task 1 ''u1'' ''Write spec'' Backlog 0]"
        and d = "example_task 2 ''u2'' ''Review'' Backlog 0"]
    by (simp add: example_task_def)
qed

text \<open>
  C5. With a valid session, a body that the task schema rejects makes POST answer 400
  with the schema's issues; a query that the query schema rejects makes GET answer 500
  with a generic message, not 400.
\<close>

theorem validation_failure_responses:
  assumes "session_user_id session = Some uid"
  shows "(tschema json = Inl issues
            \<longrightarrow> POST tschema session (Some json) db
                = (db, \<lparr>http_status = 400, body = ValidationErrorBody ''Validation error'' issues\<rparr>))
       \<and> (qschema (query_input_of searchParams) = Inl issues'
            \<longrightarrow> GET qschema regex session searchParams db = (db, internal_server_error))
       \<and> http_status internal_server_error = 500"
  using assms by (simp add: POST_def GET_def internal_server_error_def)

theorem validation_failure_responses_witness:
  "session_user_id (example_session ''u1'') = Some ''u1''
   \<and> getTasksQuerySchema (\<lambda>s. None) (query_input_of [(''status'', ''bogus'')])
       = Inl [\<lparr>path = [''status''], message = ''Invalid enum value''\<rparr>]
   \<and> GET (getTasksQuerySchema (\<lambda>s. None)) regex_fragment (example_session ''u1'')
        [(''status'', ''bogus'')] empty_database
       = (empty_database, \<lparr>http_status = 500, body = ErrorBody ''Internal server error''\<rparr>)
   \<and> POST taskSchema (example_session ''u1'') (Some (example_payload ''ab'' None)) empty_database
       = (empty_database,
          \<lparr>http_status = 400,
           body = ValidationErrorBody ''Validation error''
             [\<lparr>path = [''title''], message = ''Title must be at least 3 characters''\<rparr>]\<rparr>)"
proof -
  have h: "session_user_id (example_session ''u1'') = Some ''u1''"
    by (simp add: session_user_id_def example_session_def)
  have q: "getTasksQuerySchema (\<lambda>s. None) (query_input_of [(''status'', ''bogus'')])
       = Inl [\<lparr>path = [''status''], message = ''Invalid enum value''\<rparr>]"
    by (simp add: getTasksQuerySchema_def query_input_of_def or_undefined_def
        searchParams_get_def status_of_string_def defined_def)
  have p: "taskSchema (example_payload ''ab'' None)
       = Inl [\<lparr>path = [''title''], message = ''Title must be at least 3 characters''\<rparr>]"
    by (simp add: taskSchema_def example_payload_def title_issues_def description_issues_def
        percent_issues_def)
  show ?thesis
    using h q p
      validation_failure_responses [OF h, where tschema = taskSchema
        and json = "example_payload ''ab'' None"
        and issues = "[\<lparr>path = [''title''], message = ''Title must be at least 3 characters''\<rparr>]"
        and qschema = "getTasksQuerySchema (\<lambda>s. None)"
        and searchParams = "[(''status'', ''bogus'')]"
        and issues' = "[\<lparr>path = [''status''], message = ''Invalid enum value''\<rparr>]"
        and regex = regex_fragment and db = empty_database]
    by (simp add: internal_server_error_def)
qed




lemma month_cell_count:
  "length (drawn (month_cell k dayTasks))
     + (case more_count (month_cell k dayTasks) of None \<Rightarrow> 0 | Some n \<Rightarrow> n)
   = length dayTasks"
  by (simp add: month_cell_def)




text \<open>
  C3. For a task without checklist whose stored percent lies between 0 and 100, the
  dialog shows the stored percent, which is its clamped value; the card of the
  all-tasks view and the week cells of the timeline show that value when it is
  positive and no progress bar when it is 0. The dialog's schema lets no other percent
  through.
\<close>

theorem manual_progress_is_stored_percent:
  assumes "items t = []" and "0 \<le> percent t" and "percent t \<le> 100"
  shows "checklistProgress (items t) (Num (percent t)) = clamp_percent (percent t)
       \<and> card_progress t = (if 0 < percent t then Some (clamp_percent (percent t)) else None)
       \<and> week_cell_progress t = (if 0 < percent t then Some (clamp_percent (percent t)) else None)
       \<and> (dialog_taskSchema d = Inr d' \<and> fd_percent d = Num p \<longrightarrow> 0 \<le> p \<and> p \<le> 100)"
  using assms
  by (auto simp: checklistProgress_def card_progress_def week_cell_progress_def or_zero_def
      clamp_percent_def dialog_taskSchema_def form_percent_issues_def range_issues_def Let_def
      split: if_splits)

theorem manual_progress_is_stored_percent_witness:
  "items ((example_task 11 ''u1'' ''Plan'' Backlog 0)\<lparr>percent := 40\<rparr>) = []
   \<and> checklistProgress [] (Num 40) = 40
   \<and> card_progress ((example_task 11 ''u1'' ''Plan'' Backlog 0)\<lparr>percent := 40\<rparr>) = Some 40
   \<and> week_cell_progress ((example_task 11 ''u1'' ''Plan'' Backlog 0)\<lparr>percent := 40\<rparr>) = Some 40
   \<and> clamp_percent 40 = 40"
proof -
  let ?t = "(example_task 11 ''u1'' ''Plan'' Backlog 0)\<lparr>percent := 40\<rparr>"
  have h: "items ?t = []" and l: "0 \<le> percent ?t" and u: "percent ?t \<le> 100"
    by (simp_all add: example_task_def)
  have c: "clamp_percent 40 = 40" by (simp add: clamp_percent_def)
  show ?thesis
    using h c manual_progress_is_stored_percent [OF h l u]
    by (simp add: example_task_def)
qed

theorem zero_percent_counterexample:
  "items (example_task 11 ''u1'' ''Plan'' Backlog 0) = []
   \<and> percent (example_task 11 ''u1'' ''Plan'' Backlog 0) = 0
   \<and> card_progress (example_task 11 ''u1'' ''Plan'' Backlog 0) = None
   \<and> card_progress (example_task 11 ''u1'' ''Plan'' Backlog 0)
       \<noteq> Some (clamp_percent (percent (example_task 11 ''u1'' ''Plan'' Backlog 0)))"
  by (simp add: card_progress_def example_task_def)

lemma starts_with_iff: "starts_with s q \<longleftrightarrow> (\<exists>b. s = q @ b)"
  unfolding starts_with_def
  by (metis append_eq_conv_conj append_take_drop_id)

lemma js_includes_iff: "js_includes s q \<longleftrightarrow> (\<exists>a b. s = a @ q @ b)"
proof (induction s)
  case Nil
  then show ?case by auto
next
  case (Cons c cs)
  show ?case
  proof
    assume "js_includes (c # cs) q"
    then consider "starts_with (c # cs) q" | "js_includes cs q" by auto
    then show "\<exists>a b. c # cs = a @ q @ b"
    proof cases
      case 1
      then obtain b where "c # cs = q @ b" by (auto simp: starts_with_iff)
      then have "c # cs = [] @ q @ b" by simp
      then show ?thesis by blast
    next
      case 2
      then obtain a b where "cs = a @ q @ b" using Cons.IH by auto
      then have "c # cs = (c # a) @ q @ b" by simp
      then show ?thesis by blast
    qed
  next
    assume "\<exists>a b. c # cs = a @ q @ b"
    then obtain a b where ab: "c # cs = a @ q @ b" by auto
    show "js_includes (c # cs) q"
    proof (cases a)
      case Nil
      then have "starts_with (c # cs) q" using ab by (auto simp: starts_with_iff)
      then show ?thesis by simp
    next
      case (Cons x a')
      then have "cs = a' @ q @ b" using ab by simp
      then show ?thesis using Cons.IH by auto
    qed
  qed
qed

lemma search_matches_iff:
  "search_matches q t \<longleftrightarrow>
     (\<exists>a b. toLowerCase (title t) = a @ toLowerCase q @ b)
     \<or> (\<exists>d a b. description t = Some d \<and> d \<noteq> [] \<and> toLowerCase d = a @ toLowerCase q @ b)"
  by (auto simp: search_matches_def js_includes_iff split: option.splits)

text \<open>
  C7. The all-tasks view tests whether the query occurs in the title or description as
  a substring, letters lowered on both sides (\<open>search_matches_iff\<close>). GET hands the
  query to the database as a regular expression: the query \<open>.\<close> returns a task
  titled \<open>abc\<close>, in which no dot occurs.
\<close>

theorem GET_search_is_a_regex:
  "body (snd (GET (getTasksQuerySchema parseDate) regex_fragment (example_session ''u1'')
       [(''q'', ''.'')]
       \<lparr>documents = [example_task 1 ''u1'' ''abc'' Backlog 0], next_id = 2, calls = []\<rparr>))
     = TasksBody [example_task 1 ''u1'' ''abc'' Backlog 0]
   \<and> \<not> search_matches ''.'' (example_task 1 ''u1'' ''abc'' Backlog 0)
   \<and> \<not> js_includes (toLowerCase ''abc'') (toLowerCase ''.'')"
  by (simp add: GET_def session_user_id_def example_session_def getTasksQuerySchema_def
      query_input_of_def or_undefined_def searchParams_get_def build_filter_def defined_def
      truthy_def Task_find_def connectDB_def matches_def sort_status_order_def example_task_def
      regex_fragment_def metacharacters_def search_matches_def toLowerCase_def lower_char_def
      ascii_lower_char_def lower_table_def latin1_table_def starts_with_def)

lemma sort_key_Nil_iff: "sort_key f xs = [] \<longleftrightarrow> xs = []"
  by (metis length_0_conv length_sort)


lemma findOne_last_None:
  "snd (Task_findOne_last uid st db) = None \<longleftrightarrow> column_orders uid st (documents db) = []"
  by (auto simp: Task_findOne_last_def column_orders_def sort_key_Nil_iff split: list.splits)

lemma last_sort_key_max:
  assumes "xs \<noteq> []"
  shows "f (last (sort_key f xs)) = Max (set (map f xs))"
proof -
  let ?s = "sort_key f xs"
  have ne: "?s \<noteq> []" using assms by (metis length_sort length_0_conv)
  have srt: "sorted (map f ?s)" by (rule sorted_sort_key)
  have "f y \<le> f (last ?s)" if "y \<in> set xs" for y
  proof -
    from that have "y \<in> set ?s" by simp
    then obtain i where i: "i < length ?s" "?s ! i = y" by (metis in_set_conv_nth)
    have "map f ?s ! i \<le> map f ?s ! (length ?s - 1)"
      using srt i(1) by (intro sorted_nth_mono) auto
    then show ?thesis using i ne by (simp add: last_conv_nth)
  qed
  moreover have "last ?s \<in> set xs" using ne by (metis last_in_set set_sort)
  ultimately show ?thesis
    by (intro Max_eqI [symmetric]) auto
qed

lemma findOne_last_Some:
  assumes "snd (Task_findOne_last uid st db) = Some l"
  shows "order l = Max (set (column_orders uid st (documents db)))"
proof -
  let ?col = "filter (\<lambda>t. userId t = uid \<and> status t = st) (documents db)"
  from assms have ne: "?col \<noteq> []"
    by (auto simp: Task_findOne_last_def sort_key_Nil_iff split: list.splits)
  then have ne': "sort_key order ?col \<noteq> []" by (metis length_sort length_0_conv)
  from assms have "l = hd (rev (sort_key order ?col))"
    by (auto simp: Task_findOne_last_def split: list.splits)
  then have "l = last (sort_key order ?col)" using ne' by (simp add: hd_rev)
  then show ?thesis using last_sort_key_max [OF ne, of order] by (simp add: column_orders_def)
qed

lemma POST_created:
  assumes "session_user_id session = Some uid" and "tschema json = Inr td"
  shows "POST tschema session (Some json) db =
     (db\<lparr>documents := documents db @ [new_task td uid (next_order uid (td_status td) (documents db)) (next_id db)],
         next_id := next_id db + 1, calls := calls db @ [ConnectDB, FindOne, Create]\<rparr>,
      \<lparr>http_status = 201,
       body = TaskBody (new_task td uid (next_order uid (td_status td) (documents db)) (next_id db))\<rparr>)"
proof -
  obtain db1 lastTask where f: "Task_findOne_last uid (td_status td) (connectDB db) = (db1, lastTask)"
    by (cases "Task_findOne_last uid (td_status td) (connectDB db)")
  have db1: "db1 = db\<lparr>calls := calls db @ [ConnectDB, FindOne]\<rparr>"
    using f by (simp add: Task_findOne_last_def connectDB_def)
  have docs: "documents (connectDB db) = documents db" by (simp add: connectDB_def)
  have ord: "(case lastTask of Some l \<Rightarrow> order l + 1 | None \<Rightarrow> 0)
             = next_order uid (td_status td) (documents db)"
  proof (cases lastTask)
    case None
    then have "snd (Task_findOne_last uid (td_status td) (connectDB db)) = None" using f by simp
    then show ?thesis using None by (simp add: findOne_last_None docs next_order_def)
  next
    case (Some l)
    then have s: "snd (Task_findOne_last uid (td_status td) (connectDB db)) = Some l" using f by simp
    then have "column_orders uid (td_status td) (documents db) \<noteq> []"
      using findOne_last_None [of uid "td_status td" "connectDB db"] by (simp add: docs)
    then show ?thesis using Some findOne_last_Some [OF s] by (simp add: docs next_order_def)
  qed
  show ?thesis
    using assms f ord
    by (simp add: POST_def Task_create_def db1 Let_def)
qed






lemma example_session_id: "session_user_id (example_session ''u1'') = Some ''u1''"
  by (simp add: session_user_id_def example_session_def)

lemma example_payload_ok:
  "taskSchema (example_payload ''Write spec'' (Some ''backlog'')) =
     Inr \<lparr>td_title = ''Write spec'', td_description = None, td_status = Backlog,
          td_priority = Med, td_tags = [], td_startAt = None, td_dueAt = None, td_items = [],
          td_percent = 0\<rparr>"
  by (simp add: taskSchema_def example_payload_def title_issues_def description_issues_def
      percent_issues_def status_of_string_def defined_def)

lemma example_create:
  "POST taskSchema (example_session ''u1'') (Some (example_payload ''Write spec'' (Some ''backlog'')))
     \<lparr>documents = docs, next_id = n, calls = cs\<rparr>
   = (\<lparr>documents = docs @ [example_task n ''u1'' ''Write spec'' Backlog (next_order ''u1'' Backlog docs)],
       next_id = n + 1, calls = cs @ [ConnectDB, FindOne, Create]\<rparr>,
      \<lparr>http_status = 201,
       body = TaskBody (example_task n ''u1'' ''Write spec'' Backlog (next_order ''u1'' Backlog docs))\<rparr>)"
  by (simp add: POST_created [where tschema = taskSchema and json = "example_payload ''Write spec'' (Some ''backlog'')", OF example_session_id example_payload_ok] new_task_def
      example_task_def)

lemma POST_two_phases:
  "POST tschema session request_json db =
     (case POST_lookup tschema session request_json db of
        (db', Inl r) \<Rightarrow> (db', r)
      | (db', Inr p) \<Rightarrow> POST_insert p db')"
  by (simp add: POST_def POST_lookup_def POST_insert_def Let_def
      split: option.splits sum.splits prod.splits)








lemma browser_delete_leaves_gap:
  "column_orders ''u1'' Backlog
      (handleTaskDelete 11
        [example_task 11 ''u1'' ''Plan'' Backlog 0, example_task 12 ''u1'' ''Draft'' Backlog 1])
   = [1]"
  by (simp add: column_orders_def example_task_def handleTaskDelete_def)

text \<open>
  C1. A POST with a valid session and a payload the schema accepts answers 201 with
  the created task, appended to the collection, owned by the session's user, in the
  status the schema gave, with order one more than the largest order of that user's
  tasks in that status, or 0 when there is none. The schema gives status backlog when
  the payload names none. Creating a task titled \<open>Write spec\<close> with status backlog in an
  empty collection and listing gives exactly that task, with order 0, percent 0 and no
  tags.
\<close>

theorem POST_assigns_next_order:
  assumes "session_user_id session = Some uid" and "tschema json = Inr td"
  shows "http_status (snd (POST tschema session (Some json) db)) = 201
       \<and> (case body (snd (POST tschema session (Some json) db)) of
            TaskBody t \<Rightarrow>
              documents (fst (POST tschema session (Some json) db)) = documents db @ [t]
              \<and> userId t = uid \<and> status t = td_status td
              \<and> order t =
                  (if column_orders uid (status t) (documents db) = [] then 0
                   else Max (set (column_orders uid (status t) (documents db))) + 1)
          | _ \<Rightarrow> False)
       \<and> (taskSchema p = Inr td' \<and> p_status p = None \<longrightarrow> td_status td' = Backlog)
       \<and> body (snd (GET (getTasksQuerySchema parseDate) regex (example_session ''u1'') []
            (fst (POST taskSchema (example_session ''u1'')
                    (Some (example_payload ''Write spec'' (Some ''backlog''))) empty_database))))
          = TasksBody [example_task 0 ''u1'' ''Write spec'' Backlog 0]
       \<and> order (example_task 0 ''u1'' ''Write spec'' Backlog 0) = 0
       \<and> percent (example_task 0 ''u1'' ''Write spec'' Backlog 0) = 0
       \<and> tags (example_task 0 ''u1'' ''Write spec'' Backlog 0) = []"
proof -
  have a: "http_status (snd (POST tschema session (Some json) db)) = 201
       \<and> (case body (snd (POST tschema session (Some json) db)) of
            TaskBody t \<Rightarrow>
              documents (fst (POST tschema session (Some json) db)) = documents db @ [t]
              \<and> userId t = uid \<and> status t = td_status td
              \<and> order t =
                  (if column_orders uid (status t) (documents db) = [] then 0
                   else Max (set (column_orders uid (status t) (documents db))) + 1)
          | _ \<Rightarrow> False)"
    by (simp add: POST_created [where tschema = tschema and json = json, OF assms] new_task_def next_order_def)
  have b: "taskSchema p = Inr td' \<and> p_status p = None \<longrightarrow> td_status td' = Backlog"
    by (auto simp: taskSchema_def Let_def split: if_splits)
  have c: "body (snd (GET (getTasksQuerySchema parseDate) regex (example_session ''u1'') []
            (fst (POST taskSchema (example_session ''u1'')
                    (Some (example_payload ''Write spec'' (Some ''backlog''))) empty_database))))
          = TasksBody [example_task 0 ''u1'' ''Write spec'' Backlog 0]"
    by (simp add: empty_database_def example_create next_order_def column_orders_def
        GET_def example_session_id getTasksQuerySchema_def query_input_of_def or_undefined_def
        searchParams_get_def build_filter_def defined_def truthy_def Task_find_def connectDB_def
        matches_def sort_status_order_def example_task_def)
  show ?thesis using a b c by (simp add: example_task_def)
qed

theorem POST_assigns_next_order_witness:
  "http_status (snd (POST taskSchema (example_session ''u1'')
        (Some (example_payload ''Write spec'' None))
        \<lparr>documents = [example_task 1 ''u1'' ''Plan'' Backlog 0, example_task 2 ''u1'' ''Draft'' Backlog 4,
                      example_task 3 ''u2'' ''Other'' Backlog 9, example_task 4 ''u1'' ''Ship'' Done 7],
         next_id = 5, calls = []\<rparr>)) = 201
   \<and> body (snd (POST taskSchema (example_session ''u1'')
        (Some (example_payload ''Write spec'' None))
        \<lparr>documents = [example_task 1 ''u1'' ''Plan'' Backlog 0, example_task 2 ''u1'' ''Draft'' Backlog 4,
                      example_task 3 ''u2'' ''Other'' Backlog 9, example_task 4 ''u1'' ''Ship'' Done 7],
         next_id = 5, calls = []\<rparr>))
      = TaskBody (example_task 5 ''u1'' ''Write spec'' Backlog 5)"
proof -
  let ?db = "\<lparr>documents = [example_task 1 ''u1'' ''Plan'' Backlog 0, example_task 2 ''u1'' ''Draft'' Backlog 4,
                      example_task 3 ''u2'' ''Other'' Backlog 9, example_task 4 ''u1'' ''Ship'' Done 7],
         next_id = 5, calls = []\<rparr>"
  have p: "taskSchema (example_payload ''Write spec'' None) =
     Inr \<lparr>td_title = ''Write spec'', td_description = None, td_status = Backlog,
          td_priority = Med, td_tags = [], td_startAt = None, td_dueAt = None, td_items = [],
          td_percent = 0\<rparr>"
    by (simp add: taskSchema_def example_payload_def title_issues_def description_issues_def
      percent_issues_def)
  have e: "POST taskSchema (example_session ''u1'') (Some (example_payload ''Write spec'' None)) ?db
     = (\<lparr>documents = documents ?db @ [example_task 5 ''u1'' ''Write spec'' Backlog 5],
         next_id = 6, calls = [ConnectDB, FindOne, Create]\<rparr>,
        \<lparr>http_status = 201, body = TaskBody (example_task 5 ''u1'' ''Write spec'' Backlog 5)\<rparr>)"
    by (simp add: POST_def example_session_id p Task_findOne_last_def connectDB_def
        Task_create_def new_task_def example_task_def Let_def)
  show ?thesis
    using e POST_assigns_next_order [where tschema = taskSchema and json = "example_payload ''Write spec'' None" and db = ?db, OF example_session_id p]
    by simp
qed

lemma round_half_even_error: "\<bar>of_int (round_half_even y) - y\<bar> \<le> 1 / 2"
proof -
  have "of_int \<lfloor>y\<rfloor> \<le> y" "y < of_int \<lfloor>y\<rfloor> + 1" by linarith+
  then show ?thesis
    by (auto simp: round_half_even_def Let_def)
qed

lemma binade_lower:
  assumes "0 < x"
  shows "power_int 2 (binade x) \<le> x"
proof (cases "1 \<le> x")
  case True
  let ?m = "\<lfloor>x\<rfloor>"
  have m: "0 < ?m" using True by simp
  have b: "0 \<le> bitlen ?m - 1" using m by (auto simp: bitlen_alt_def)
  have "(2::int) ^ nat (bitlen ?m - 1) \<le> ?m" using bitlen_bounds [OF m] by simp
  then have "(of_int ((2::int) ^ nat (bitlen ?m - 1)) :: rat) \<le> of_int ?m"
    by (simp only: of_int_le_iff)
  also have "\<dots> \<le> x" by simp
  finally have "(2::rat) ^ nat (bitlen ?m - 1) \<le> x" by simp
  moreover have "power_int (2::rat) (bitlen ?m - 1) = 2 ^ nat (bitlen ?m - 1)"
    using b by (simp add: power_int_def)
  ultimately show ?thesis using True by (simp add: binade_def)
next
  case False
  let ?k = "\<lceil>1 / x\<rceil> - 1"
  have "1 < 1 / x" using False assms by simp
  then have "2 \<le> \<lceil>1 / x\<rceil>" by linarith
  then have k: "0 < ?k" by simp
  let ?b = "bitlen ?k"
  have bpos: "0 \<le> ?b" by (rule bitlen_nonneg)
  have "?k < 2 ^ nat ?b" using bitlen_bounds [OF k] by simp
  then have "\<lceil>1 / x\<rceil> \<le> 2 ^ nat ?b" by simp
  then have "(of_int \<lceil>1 / x\<rceil> :: rat) \<le> of_int (2 ^ nat ?b)" by (simp only: of_int_le_iff)
  then have "1 / x \<le> 2 ^ nat ?b" by (simp add: ceiling_le_iff)
  then have "1 \<le> 2 ^ nat ?b * x" using assms by (simp add: field_simps)
  then have "1 / 2 ^ nat ?b \<le> x" by (simp add: field_simps)
  moreover have "power_int (2::rat) (- ?b) = 1 / 2 ^ nat ?b"
    using bpos by (simp add: power_int_def field_simps)
  ultimately show ?thesis using False by (simp add: binade_def)
qed

lemma binade_upper:
  assumes "0 < x"
  shows "x < power_int 2 (binade x + 1)"
proof (cases "1 \<le> x")
  case True
  let ?m = "\<lfloor>x\<rfloor>"
  have m: "0 < ?m" using True by simp
  have b: "0 \<le> bitlen ?m" by (rule bitlen_nonneg)
  have "?m < 2 ^ nat (bitlen ?m)" using bitlen_bounds [OF m] by simp
  then have "?m + 1 \<le> 2 ^ nat (bitlen ?m)" by simp
  then have "(of_int (?m + 1) :: rat) \<le> of_int (2 ^ nat (bitlen ?m))"
    by (simp only: of_int_le_iff)
  moreover have "x < of_int (?m + 1)" by simp linarith
  ultimately have "x < 2 ^ nat (bitlen ?m)" by simp
  moreover have "power_int (2::rat) (bitlen ?m) = 2 ^ nat (bitlen ?m)"
    using b by (simp add: power_int_def)
  ultimately show ?thesis using True by (simp add: binade_def)
next
  case False
  let ?k = "\<lceil>1 / x\<rceil> - 1"
  have "1 < 1 / x" using False assms by simp
  then have "2 \<le> \<lceil>1 / x\<rceil>" by linarith
  then have k: "0 < ?k" by simp
  let ?b = "bitlen ?k"
  have b1: "1 \<le> ?b" using k by (auto simp: bitlen_alt_def)
  have "(2::int) ^ nat (?b - 1) \<le> ?k" using bitlen_bounds [OF k] by simp
  then have "(of_int (2 ^ nat (?b - 1)) :: rat) \<le> of_int ?k" by (simp only: of_int_le_iff)
  moreover have "of_int ?k < 1 / x" by simp linarith
  ultimately have "(2::rat) ^ nat (?b - 1) < 1 / x" by simp
  then have "x * 2 ^ nat (?b - 1) < 1" using assms by (simp add: field_simps)
  then have "x < 1 / 2 ^ nat (?b - 1)" by (simp add: field_simps)
  moreover have "power_int (2::rat) (- ?b + 1) = 1 / 2 ^ nat (?b - 1)"
  proof -
    have "- ?b + 1 = - int (nat (?b - 1))" using b1 by simp
    then have "power_int (2::rat) (- ?b + 1) = power_int 2 (- int (nat (?b - 1)))" by simp
    also have "\<dots> = 1 / 2 ^ nat (?b - 1)" by (simp only: power_int_minus_divide power_int_of_nat)
    finally show ?thesis .
  qed
  ultimately show ?thesis using False by (simp add: binade_def)
qed

lemma to_double_error: "\<bar>to_double x - x\<bar> \<le> \<bar>x\<bar> / 2 ^ 53"
proof (cases "x = 0")
  case True
  then show ?thesis by (simp add: to_double_def)
next
  case False
  define u :: rat where "u = power_int 2 (binade \<bar>x\<bar> - 52)"
  define y where "y = \<bar>x\<bar> / u"
  have upos: "0 < u" by (simp add: u_def zero_less_power_int)
  have "power_int (2::rat) (binade \<bar>x\<bar>) = u * 2 ^ 52"
    using power_int_add [of "2::rat" "binade \<bar>x\<bar> - 52" 52] by (simp add: u_def)
  then have "u * 2 ^ 52 \<le> \<bar>x\<bar>" using binade_lower [of "\<bar>x\<bar>"] False by simp
  then have u_le: "u / 2 \<le> \<bar>x\<bar> / 2 ^ 53" by simp
  have td: "to_double x = sgn x * of_int (round_half_even y) * u"
    using False by (simp add: to_double_def u_def y_def Let_def)
  have "x = sgn x * y * u" using upos by (simp add: y_def mult.commute [of "sgn x"] mult_sgn_abs)
  then have "to_double x - x = sgn x * u * (of_int (round_half_even y) - y)"
    unfolding td by (simp add: algebra_simps)
  then have "\<bar>to_double x - x\<bar> = u * \<bar>of_int (round_half_even y) - y\<bar>"
    using False upos by (simp add: abs_mult abs_sgn_eq)
  also have "\<dots> \<le> u * (1 / 2)"
    using round_half_even_error [of y] upos by (intro mult_left_mono) auto
  also have "\<dots> \<le> \<bar>x\<bar> / 2 ^ 53" using u_le by simp
  finally show ?thesis .
qed

lemma product_error:
  assumes "0 \<le> x" and "x \<le> 1"
  shows "\<bar>js_mul (to_double x) 100 - 100 * x\<bar> \<le> 300 / 2 ^ 53"
proof -
  define a where "a = to_double x"
  have e1: "\<bar>a - x\<bar> \<le> 1 / 2 ^ 53"
  proof -
    have "\<bar>a - x\<bar> \<le> \<bar>x\<bar> / 2 ^ 53" unfolding a_def by (rule to_double_error)
    also have "\<dots> \<le> 1 / 2 ^ 53" using assms by (simp add: divide_right_mono)
    finally show ?thesis .
  qed
  have "(1::rat) / 2 ^ 53 \<le> 1" by simp
  with e1 have "\<bar>a - x\<bar> \<le> 1" by (rule order_trans)
  then have a2: "\<bar>a\<bar> \<le> 2" using assms by linarith
  have "\<bar>to_double (a * 100) - a * 100\<bar> \<le> \<bar>a * 100\<bar> / 2 ^ 53" by (rule to_double_error)
  also have "\<dots> \<le> 200 / 2 ^ 53" using a2 by (simp add: abs_mult)
  finally have e2: "\<bar>to_double (a * 100) - a * 100\<bar> \<le> 200 / 2 ^ 53" .
  have "\<bar>to_double (a * 100) - 100 * x\<bar> \<le> \<bar>to_double (a * 100) - a * 100\<bar> + 100 * \<bar>a - x\<bar>"
    by (simp add: abs_le_iff abs_if split: if_splits)
  also have "\<dots> \<le> 200 / 2 ^ 53 + 100 * (1 / 2 ^ 53)" using e1 e2 by (intro add_mono) auto
  finally show ?thesis by (simp add: js_mul_def a_def)
qed

lemma round_near_fraction:
  fixes r :: rat and c n :: nat
  assumes n: "0 < n" and near: "\<bar>r - 100 * of_nat c / of_nat n\<bar> < 1 / (2 * of_nat n)"
  shows "\<bar>of_int (Math_round r) - 100 * of_nat c / (of_nat n :: rat)\<bar> \<le> 1 / 2"
    and "(200 * c) mod (2 * n) \<noteq> n \<Longrightarrow> Math_round r = rounded_percentage c n"
proof -
  define v :: rat where "v = 100 * of_nat c / of_nat n"
  define p where "p = Math_round r"
  define z :: int where "z = 2 * int n * p - 200 * int c"
  have npos: "(0::rat) < of_nat n" using n by simp
  have n2pos: "(0::rat) < 2 * of_nat n" using n by simp
  have p1: "of_int p \<le> r + 1 / 2" and p2: "r + 1 / 2 < of_int p + 1"
    unfolding p_def Math_round_def by linarith+
  have zv: "of_int z = 2 * of_nat n * (of_int p - v)"
    using npos by (simp add: z_def v_def field_simps)
  have nr: "\<bar>r - v\<bar> < 1 / (2 * of_nat n)" using near by (simp add: v_def)
  have up: "of_int p - v < 1 / 2 + 1 / (2 * of_nat n)" using p1 nr by (simp add: abs_less_iff)
  have lo: "- (1 / 2) - 1 / (2 * of_nat n) < of_int p - v" using p2 nr by (simp add: abs_less_iff)
  have bound: "2 * of_nat n * (1 / 2 + 1 / (2 * of_nat n)) = (of_nat n + 1 :: rat)"
    using npos by (simp add: field_simps)
  have bound': "2 * of_nat n * (- (1 / 2) - 1 / (2 * of_nat n)) = - (of_nat n + 1 :: rat)"
    using npos by (simp add: field_simps)
  have "2 * of_nat n * (of_int p - v) < 2 * of_nat n * (1 / 2 + 1 / (2 * of_nat n))"
    using up npos by (intro mult_strict_left_mono) auto
  then have zu: "(of_int z :: rat) < of_nat n + 1" by (simp only: zv bound)
  have "2 * of_nat n * (- (1 / 2) - 1 / (2 * of_nat n)) < 2 * of_nat n * (of_int p - v)"
    using lo npos by (intro mult_strict_left_mono) auto
  then have zl: "- (of_nat n + 1) < (of_int z :: rat)" by (simp only: zv bound')
  have "(of_int z :: rat) < of_int (int n + 1)" using zu by simp
  then have zu': "z < int n + 1" by (simp only: of_int_less_iff)
  have "(of_int (- (int n + 1)) :: rat) < of_int z" using zl by simp
  then have zl': "- (int n + 1) < z" by (simp only: of_int_less_iff)
  have zabs: "- int n \<le> z" "z \<le> int n" using zu' zl' by auto
  have pv: "of_int p - v = of_int z / (2 * of_nat n)" using npos by (simp add: zv)
  have "\<bar>z\<bar> \<le> int n" using zabs by simp
  then have "(of_int \<bar>z\<bar> :: rat) \<le> of_int (int n)" by (simp only: of_int_le_iff)
  then have "\<bar>of_int z :: rat\<bar> \<le> of_nat n" by simp
  then have "\<bar>of_int p - v\<bar> \<le> of_nat n / (2 * of_nat n)"
    unfolding pv using npos by (simp add: abs_divide divide_right_mono)
  then show "\<bar>of_int (Math_round r) - 100 * of_nat c / (of_nat n :: rat)\<bar> \<le> 1 / 2"
    using npos by (simp add: p_def v_def)
  assume tie: "(200 * c) mod (2 * n) \<noteq> n"
  have "z \<noteq> - int n"
  proof
    assume "z = - int n"
    then have "200 * int c = int n * (2 * p + 1)" by (simp add: z_def algebra_simps)
    then have "(200 * int c) mod (2 * int n) = (int n + p * (2 * int n)) mod (2 * int n)"
      by (simp add: algebra_simps)
    also have "\<dots> = int n mod (2 * int n)" by (simp only: mod_mult_self1)
    also have "\<dots> = int n" using n by simp
    finally have "int ((200 * c) mod (2 * n)) = int n" by (simp add: zmod_int)
    then show False using tie by simp
  qed
  then have zl2: "- int n < z" using zabs by simp
  have "(of_int (- int n) :: rat) < of_int z" using zl2 by (simp only: of_int_less_iff)
  then have "- (of_nat n :: rat) < 2 * of_nat n * (of_int p - v)" by (simp add: zv)
  moreover have "2 * of_nat n * (- (1 / 2)) = - (of_nat n :: rat)" by simp
  ultimately have "2 * of_nat n * (- (1 / 2)) < 2 * of_nat n * (of_int p - v)" by (simp only:)
  then have "- (1 / 2) < of_int p - v"
    using n2pos by (simp only: mult_less_cancel_left_pos)
  then have g1: "v - 1 / 2 < of_int p" by simp
  have "(of_int z :: rat) \<le> of_int (int n)" using zabs by (simp only: of_int_le_iff)
  then have "2 * of_nat n * (of_int p - v) \<le> (of_nat n :: rat)" by (simp add: zv)
  moreover have "2 * of_nat n * (1 / 2) = (of_nat n :: rat)" by simp
  ultimately have "2 * of_nat n * (of_int p - v) \<le> 2 * of_nat n * (1 / 2 :: rat)" by (simp only:)
  then have "of_int p - v \<le> 1 / 2"
    using n2pos by (simp only: mult_le_cancel_left_pos)
  then have g2: "of_int p \<le> v + 1 / 2" by simp
  have "\<lfloor>v + 1 / 2\<rfloor> = p" using g1 g2 by (intro floor_unique) auto
  then show "Math_round r = rounded_percentage c n"
    by (simp add: rounded_percentage_def p_def v_def)
qed

lemma checked_count_le: "checked_count xs \<le> length xs"
  by (simp add: checked_count_def)

lemma example_checklist_counts:
  "c \<le> n \<Longrightarrow> length (example_checklist c n) = n \<and> checked_count (example_checklist c n) = c"
  by (simp add: example_checklist_def checked_count_def)

lemma checklist_value_near:
  assumes "0 < n" and "n < 2 ^ 32" and "c \<le> n"
  shows "\<bar>js_mul (js_div (of_nat c) (of_nat n)) 100 - 100 * of_nat c / of_nat n\<bar>
           < 1 / (2 * of_nat n)"
proof -
  let ?x = "of_nat c / of_nat n :: rat"
  have x0: "0 \<le> ?x" by simp
  have x1: "?x \<le> 1" using assms by (simp add: divide_le_eq_1)
  have e: "\<bar>js_mul (to_double ?x) 100 - 100 * ?x\<bar> \<le> 300 / 2 ^ 53"
    by (rule product_error [OF x0 x1])
  have "(of_nat n :: rat) < of_nat (2 ^ 32)" using assms(2) by (simp only: of_nat_less_iff)
  then have n32: "(of_nat n :: rat) < 2 ^ 32" by simp
  have npos: "(0::rat) < of_nat n" using assms(1) by simp
  have "(300::rat) / 2 ^ 53 < 1 / (2 * 2 ^ 32)" by simp
  also have "\<dots> < 1 / (2 * of_nat n)"
    using n32 npos by (intro divide_strict_left_mono) auto
  finally have "(300::rat) / 2 ^ 53 < 1 / (2 * of_nat n)" .
  with e show ?thesis by (simp add: js_div_def)
qed

lemma example_values:
  "Math_round (js_mul (js_div 4 4) 100) = 100"
  "Math_round (js_mul (js_div 3 4) 100) = 75"
  "Math_round (js_mul (js_div 23 40) 100) = 57"
  by code_simp+

lemma round_half_even_of_int: "round_half_even (of_int N) = N"
  by (simp add: round_half_even_def)

lemma to_double_exact:
  assumes "0 < m" and "m < 2 ^ 53"
  shows "to_double (of_nat m / 2 ^ k) = of_nat m / 2 ^ k"
proof -
  define x :: rat where "x = of_nat m / 2 ^ k"
  define e where "e = binade x"
  have xpos: "0 < x" using assms(1) by (simp add: x_def)
  have lo: "power_int 2 e \<le> x" unfolding e_def by (rule binade_lower [OF xpos])
  have "(of_nat m :: rat) < of_nat (2 ^ 53)" using assms(2) by (simp only: of_nat_less_iff)
  then have "(of_nat m :: rat) < 2 ^ 53" by simp
  then have "x < 2 ^ 53 / 2 ^ k" by (simp add: x_def divide_strict_right_mono)
  also have "\<dots> = power_int 2 (53 - int k)" by (simp add: power_int_diff)
  finally have up: "x < power_int 2 (53 - int k)" .
  have "e < 53 - int k"
  proof (rule ccontr)
    assume "\<not> e < 53 - int k"
    then have "power_int (2::rat) (53 - int k) \<le> power_int 2 e"
      by (intro power_int_increasing) auto
    then show False using lo up by linarith
  qed
  then have j: "0 \<le> 52 - e - int k" by simp
  define N :: int where "N = int m * 2 ^ nat (52 - e - int k)"
  define u :: rat where "u = power_int 2 (e - 52)"
  have upos: "0 < u" by (simp add: u_def)
  have "x / u = of_nat m * (power_int 2 (- int k) * power_int 2 (52 - e))"
    by (simp add: x_def u_def power_int_minus_divide power_int_diff field_simps)
  also have "power_int (2::rat) (- int k) * power_int 2 (52 - e) = power_int 2 (52 - e - int k)"
    by (simp add: power_int_add [symmetric])
  also have "\<dots> = 2 ^ nat (52 - e - int k)" using j by (simp add: power_int_def)
  finally have xu: "x / u = of_int N" by (simp add: N_def)
  have "to_double x = sgn x * of_int (round_half_even (\<bar>x\<bar> / u)) * u"
    using xpos by (simp add: to_double_def u_def e_def Let_def)
  also have "\<dots> = of_int N * u" using xpos by (simp add: xu round_half_even_of_int)
  also have "\<dots> = x" using xu upos by (simp add: field_simps)
  finally show ?thesis by (simp add: x_def)
qed

lemma power_of_two_exact:
  assumes "c \<le> 2 ^ k" and "2 ^ k < (2::nat) ^ 32"
  shows "Math_round (js_mul (js_div (of_nat c) (of_nat (2 ^ k))) 100) = rounded_percentage c (2 ^ k)"
proof (cases "c = 0")
  case True
  then show ?thesis
    by (simp add: js_div_def js_mul_def to_double_def Math_round_def rounded_percentage_def)
next
  case False
  have c32: "c < 2 ^ 32" using assms by simp
  have c53: "c < 2 ^ 53"
  proof -
    have "(2::nat) ^ 32 \<le> 2 ^ 53" by simp
    with c32 show ?thesis by linarith
  qed
  have d: "js_div (of_nat c) (2 ^ k) = of_nat c / 2 ^ k"
    using to_double_exact [of c k] False c53 by (simp add: js_div_def)
  have "100 * c < 100 * 2 ^ 32" using c32 by simp
  also have "\<dots> < (2::nat) ^ 53" by simp
  finally have m53: "100 * c < 2 ^ 53" .
  have "js_mul (of_nat c / 2 ^ k) 100 = to_double (of_nat (100 * c) / 2 ^ k)"
    by (simp add: js_mul_def mult.commute)
  also have "\<dots> = of_nat (100 * c) / 2 ^ k"
    using to_double_exact [of "100 * c" k] False m53 by simp
  finally have "js_mul (js_div (of_nat c) (of_nat (2 ^ k))) 100 = 100 * of_nat c / 2 ^ k"
    by (simp add: d)
  then show ?thesis by (simp add: Math_round_def rounded_percentage_def)
qed

text \<open>
  C2. For a non-empty checklist (of fewer than 2^32 items, the most an array holds)
  the progress shown by the dialog and by the card of the all-tasks view is the same
  number, whatever the stored or typed percent is. It is an integer nearest to
  100 \<times> checked / total. It is round(100 \<times> checked / total) when that value is not
  exactly halfway between two integers, and also when the total is a power of two; at
  another half the product of binary64 numbers \<open>(checked / total) * 100\<close> may fall
  below the half. With 4 items, 4 checked show 100 and 3 checked show 75.
\<close>

theorem checklist_progress_nearest_integer:
  assumes "checklistItems \<noteq> []" and "length checklistItems < 2 ^ 32"
  shows "checklistProgress checklistItems watchedPercent
           = checklistProgress checklistItems watchedPercent'
       \<and> (items t = checklistItems
            \<longrightarrow> card_progress t = Some (checklistProgress checklistItems watchedPercent))
       \<and> \<bar>checklistProgress checklistItems watchedPercent
            - 100 * of_nat (checked_count checklistItems) / of_nat (length checklistItems)\<bar>
           \<le> 1 / 2
       \<and> ((200 * checked_count checklistItems) mod (2 * length checklistItems)
              \<noteq> length checklistItems
            \<longrightarrow> checklistProgress checklistItems watchedPercent
                = of_int (rounded_percentage (checked_count checklistItems)
                            (length checklistItems)))
       \<and> (length checklistItems = 2 ^ k
            \<longrightarrow> checklistProgress checklistItems watchedPercent
                = of_int (rounded_percentage (checked_count checklistItems)
                            (length checklistItems)))
       \<and> checklistProgress (example_checklist 4 4) watchedPercent = 100
       \<and> checklistProgress (example_checklist 3 4) watchedPercent = 75"
proof -
  let ?c = "checked_count checklistItems" and ?n = "length checklistItems"
  let ?r = "js_mul (js_div (of_nat ?c) (of_nat ?n)) 100"
  have n: "0 < ?n" using assms(1) by simp
  have p: "checklistProgress checklistItems w = of_int (Math_round ?r)" for w
    using n by (simp add: checklistProgress_def)
  have near: "\<bar>?r - 100 * of_nat ?c / of_nat ?n\<bar> < 1 / (2 * of_nat ?n)"
    by (rule checklist_value_near [OF n assms(2) checked_count_le])
  have a: "checklistProgress checklistItems watchedPercent
           = checklistProgress checklistItems watchedPercent'"
    by (simp add: p)
  have b: "items t = checklistItems
            \<longrightarrow> card_progress t = Some (checklistProgress checklistItems watchedPercent)"
    using n by (auto simp: card_progress_def p)
  have c: "\<bar>checklistProgress checklistItems watchedPercent
            - 100 * of_nat ?c / of_nat ?n\<bar> \<le> 1 / 2"
    unfolding p by (rule round_near_fraction(1) [OF n near])
  have d: "(200 * ?c) mod (2 * ?n) \<noteq> ?n
            \<longrightarrow> checklistProgress checklistItems watchedPercent
                = of_int (rounded_percentage ?c ?n)"
    unfolding p using round_near_fraction(2) [OF n near] by simp
  have d2: "?n = 2 ^ k
            \<longrightarrow> checklistProgress checklistItems watchedPercent
                = of_int (rounded_percentage ?c ?n)"
  proof
    assume k: "?n = 2 ^ k"
    have "?c \<le> 2 ^ k" using checked_count_le [of checklistItems] k by simp
    moreover have "2 ^ k < (2::nat) ^ 32" using assms(2) k by simp
    ultimately have "Math_round (js_mul (js_div (of_nat ?c) (of_nat (2 ^ k))) 100)
        = rounded_percentage ?c (2 ^ k)"
      by (rule power_of_two_exact)
    then show "checklistProgress checklistItems watchedPercent
                = of_int (rounded_percentage ?c ?n)"
      unfolding p k by simp
  qed
  have e: "checklistProgress (example_checklist 4 4) watchedPercent = 100"
    using example_checklist_counts [of 4 4] example_values(1)
    by (simp add: checklistProgress_def)
  have f: "checklistProgress (example_checklist 3 4) watchedPercent = 75"
    using example_checklist_counts [of 3 4] example_values(2)
    by (simp add: checklistProgress_def)
  from a b c d d2 e f show ?thesis by blast
qed

theorem checklist_progress_nearest_integer_witness:
  "example_checklist 2 3 \<noteq> []
   \<and> length (example_checklist 2 3) < 2 ^ 32
   \<and> checklistProgress (example_checklist 2 3) (Num 90) = checklistProgress (example_checklist 2 3) NaN
   \<and> card_progress ((example_task 11 ''u1'' ''Plan'' Backlog 0)
        \<lparr>items := example_checklist 2 3, percent := 90\<rparr>) = Some 67
   \<and> checklistProgress (example_checklist 2 3) (Num 90) = 67
   \<and> rounded_percentage 2 3 = 67
   \<and> example_checklist 3 8 \<noteq> []
   \<and> length (example_checklist 3 8) = 2 ^ 3
   \<and> checklistProgress (example_checklist 3 8) Undefined = 38
   \<and> rounded_percentage 3 8 = 38"
proof -
  have h1: "example_checklist 2 3 \<noteq> []" and g1: "example_checklist 3 8 \<noteq> []"
    by (simp_all add: example_checklist_def)
  have h2: "length (example_checklist 2 3) < 2 ^ 32"
    and g2: "length (example_checklist 3 8) < 2 ^ 32"
    by (simp_all add: example_checklist_def)
  have cnt: "length (example_checklist 2 3) = 3" "checked_count (example_checklist 2 3) = 2"
    "length (example_checklist 3 8) = 8" "checked_count (example_checklist 3 8) = 3"
    using example_checklist_counts [of 2 3] example_checklist_counts [of 3 8] by simp_all
  have r: "rounded_percentage 2 3 = 67" "rounded_percentage 3 8 = 38" by code_simp+
  have i: "items ((example_task 11 ''u1'' ''Plan'' Backlog 0)
        \<lparr>items := example_checklist 2 3, percent := 90\<rparr>) = example_checklist 2 3"
    by simp
  show ?thesis
    using h1 h2 g1 r i cnt
      checklist_progress_nearest_integer [OF h1 h2, where watchedPercent = "Num 90"
        and watchedPercent' = NaN and k = 0
        and t = "(example_task 11 ''u1'' ''Plan'' Backlog 0)\<lparr>items := example_checklist 2 3, percent := 90\<rparr>"]
      checklist_progress_nearest_integer [OF g1 g2, where watchedPercent = Undefined
        and watchedPercent' = NaN and k = 3
        and t = "example_task 11 ''u1'' ''Plan'' Backlog 0"]
    by simp
qed

theorem checklist_progress_counterexample:
  "checklistProgress (example_checklist 23 40) Undefined = 57
   \<and> rounded_percentage 23 40 = 58
   \<and> checklistProgress (example_checklist 23 40) Undefined \<noteq> of_int (rounded_percentage 23 40)
   \<and> rounded_percentage 2 3 = 67
   \<and> week_cell_progress ((example_task 11 ''u1'' ''Plan'' Backlog 0)
        \<lparr>items := example_checklist 2 3\<rparr>) = None
   \<and> week_cell_progress ((example_task 11 ''u1'' ''Plan'' Backlog 0)
        \<lparr>items := example_checklist 2 3, percent := 90\<rparr>) = Some 90"
proof -
  have "checklistProgress (example_checklist 23 40) Undefined = 57"
    using example_checklist_counts [of 23 40] example_values(3)
    by (simp add: checklistProgress_def)
  moreover have "rounded_percentage 23 40 = 58" by (simp add: rounded_percentage_def)
  moreover have "rounded_percentage 2 3 = 67" by code_simp
  ultimately show ?thesis by (simp add: week_cell_progress_def example_task_def)
qed

end
